theory Spec2Isabelle
  imports Complex_Main "HOL-Library.Multiset"
begin

section \<open>Data model\<close>

text \<open>
  The camera coverage check of the repository (interfaces \<open>HardwareCamera\<close> and
  \<open>SoftwareCameraRequirements\<close>, functions \<open>canCoverRequirements\<close> and
  \<open>canCoverDistanceRange\<close>). The source's \<open>number\<close> fields hold binary64 values. A
  finite binary64 value is a real number, and the fields are modelled as \<^typ>\<open>real\<close>:
  the comparisons of the source are exact on such values, and the comparators
  \<open>a - b\<close> of the two sorts are used for their sign only, which is the sign of the exact
  difference. The one computed value the code goes on to use, the midpoint
  \<open>(lowerLight + upperLight) / 2\<close>, is rounded as binary64 arithmetic rounds it (section
  \<open>Binary64 arithmetic\<close>). \<open>NaN\<close> and infinite field values are outside the model.
  Both interfaces use the same four field names; the fields of the requirements record
  carry the prefix \<open>req_\<close>.
\<close>

record HardwareCamera =
  id :: string
  minDistance :: real
  maxDistance :: real
  minLightLevel :: real
  maxLightLevel :: real

record SoftwareCameraRequirements =
  req_minDistance :: real
  req_maxDistance :: real
  req_minLightLevel :: real
  req_maxLightLevel :: real

section \<open>canCoverDistanceRange\<close>

text \<open>
  The body of the \<open>for (const camera of sortedCameras)\<close> loop, with the running
  variable \<open>coveredUpTo\<close> as an argument. Falling out of the loop returns \<open>false\<close>.
\<close>

fun sweep :: "real \<Rightarrow> real \<Rightarrow> HardwareCamera list \<Rightarrow> bool" where
  "sweep coveredUpTo maxD [] = False"
| "sweep coveredUpTo maxD (camera # rest) =
     (if minDistance camera > coveredUpTo then False
      else
        let coveredUpTo' =
              (if maxDistance camera > coveredUpTo then maxDistance camera else coveredUpTo)
        in if coveredUpTo' \<ge> maxD then True else sweep coveredUpTo' maxD rest)"

text \<open>
  \<open>[...cameras].sort((a, b) => a.minDistance - b.minDistance)\<close> is a stable sort by
  \<open>minDistance\<close>; \<^const>\<open>sort_key\<close> is a stable insertion sort.
\<close>

definition sortedCameras :: "HardwareCamera list \<Rightarrow> HardwareCamera list" where
  "sortedCameras cameras = sort_key minDistance cameras"

definition canCoverDistanceRange :: "real \<Rightarrow> real \<Rightarrow> HardwareCamera list \<Rightarrow> bool" where
  "canCoverDistanceRange minD maxD cameras = sweep minD maxD (sortedCameras cameras)"

section \<open>Binary64 arithmetic\<close>

text \<open>
  The result of an arithmetic operation on binary64 values is the exact result rounded to
  the nearest binary64 value, ties going to the value with an even significand; a result
  that rounds to magnitude \<open>2^1024\<close> or more becomes an infinity. A computed
  \<open>number\<close> is therefore a finite value or one of the two infinities (the sum and the
  half of finite values are never \<open>NaN\<close>).
\<close>

datatype number = Finite real | PosInfinity | NegInfinity

definition round_half_even :: "real \<Rightarrow> int" where
  "round_half_even y =
     (let f = \<lfloor>y\<rfloor>; d = y - of_int f
      in if d < 1 / 2 then f else if d > 1 / 2 then f + 1 else if even f then f else f + 1)"

text \<open>
  The binade of \<open>x\<close>: the least exponent \<open>e \<ge> -1022\<close> with \<open>|x| < 2^(e+1)\<close>, found by
  counting up from \<open>-1022\<close> and capped at \<open>1024\<close>. Values below \<open>2^(-1022)\<close> (the
  subnormal ones) share the binade \<open>-1022\<close>. The spacing of binary64 values in binade
  \<open>e\<close> is \<open>2^(e-52)\<close>.
\<close>

fun binade_from :: "nat \<Rightarrow> int \<Rightarrow> real \<Rightarrow> int" where
  "binade_from 0 e x = e"
| "binade_from (Suc n) e x = (if \<bar>x\<bar> < 2 powi (e + 1) then e else binade_from n (e + 1) x)"

definition binade :: "real \<Rightarrow> int" where
  "binade x = binade_from 2046 (- 1022) x"

definition to_binary64 :: "real \<Rightarrow> number" where
  "to_binary64 x =
     (let ulp = 2 powi (binade x - 52);
          v = of_int (round_half_even (x / ulp)) * ulp
      in if \<bar>v\<bar> \<ge> 2 ^ 1024 then (if 0 < x then PosInfinity else NegInfinity)
         else Finite v)"

text \<open>
  \<open>const midpointLight = (lowerLight + upperLight) / 2\<close>: the sum is rounded, then the
  half of the rounded sum is rounded; half of an infinity is that infinity.
\<close>

definition midpointLight :: "real \<Rightarrow> real \<Rightarrow> number" where
  "midpointLight lowerLight upperLight =
     (case to_binary64 (lowerLight + upperLight) of
        Finite s \<Rightarrow> to_binary64 (s / 2)
      | PosInfinity \<Rightarrow> PosInfinity
      | NegInfinity \<Rightarrow> NegInfinity)"

text \<open>
  The comparisons \<open>x <= m\<close> and \<open>x >= m\<close> of a field value \<open>x\<close> with a computed
  number \<open>m\<close>.
\<close>

fun at_most :: "real \<Rightarrow> number \<Rightarrow> bool" where
  "at_most x (Finite m) = (x \<le> m)"
| "at_most x PosInfinity = True"
| "at_most x NegInfinity = False"

fun at_least :: "real \<Rightarrow> number \<Rightarrow> bool" where
  "at_least x (Finite m) = (x \<ge> m)"
| "at_least x PosInfinity = False"
| "at_least x NegInfinity = True"

section \<open>canCoverRequirements\<close>

definition relevantCameras ::
  "SoftwareCameraRequirements \<Rightarrow> HardwareCamera list \<Rightarrow> HardwareCamera list" where
  "relevantCameras requirements hardwareCameras =
     filter (\<lambda>camera. \<not> (maxLightLevel camera < req_minLightLevel requirements \<or>
                          minLightLevel camera > req_maxLightLevel requirements))
       hardwareCameras"

text \<open>
  A JavaScript \<open>Set\<close> keeps its elements in insertion order and ignores the insertion
  of an element it already holds: a duplicate-free list, extended at the end.
\<close>

definition set_add :: "real \<Rightarrow> real list \<Rightarrow> real list" where
  "set_add x xs = (if x \<in> set xs then xs else xs @ [x])"

definition addCameraBoundaries ::
  "SoftwareCameraRequirements \<Rightarrow> real list \<Rightarrow> HardwareCamera \<Rightarrow> real list" where
  "addCameraBoundaries requirements lightBoundaries camera =
     (let b1 = (if minLightLevel camera > req_minLightLevel requirements \<and>
                   minLightLevel camera < req_maxLightLevel requirements
                then set_add (minLightLevel camera) lightBoundaries
                else lightBoundaries)
      in if maxLightLevel camera > req_minLightLevel requirements \<and>
            maxLightLevel camera < req_maxLightLevel requirements
         then set_add (maxLightLevel camera) b1
         else b1)"

definition lightBoundaries ::
  "SoftwareCameraRequirements \<Rightarrow> HardwareCamera list \<Rightarrow> real list" where
  "lightBoundaries requirements relevant =
     foldl (addCameraBoundaries requirements)
       (set_add (req_maxLightLevel requirements)
          (set_add (req_minLightLevel requirements) []))
       relevant"

definition sortedLightBoundaries ::
  "SoftwareCameraRequirements \<Rightarrow> HardwareCamera list \<Rightarrow> real list" where
  "sortedLightBoundaries requirements relevant = sort (lightBoundaries requirements relevant)"

definition camerasForLightLevel :: "number \<Rightarrow> HardwareCamera list \<Rightarrow> HardwareCamera list" where
  "camerasForLightLevel level relevant =
     filter (\<lambda>camera. at_most (minLightLevel camera) level \<and>
                       at_least (maxLightLevel camera) level) relevant"

text \<open>
  The loop \<open>for (let i = 0; i < sortedLightBoundaries.length - 1; i++)\<close> visits the
  adjacent pairs of the boundary list from the left and returns \<open>false\<close> at the first
  pair whose cameras leave a gap; the recursion runs over the remaining boundaries.
\<close>

fun checkSegments ::
  "SoftwareCameraRequirements \<Rightarrow> HardwareCamera list \<Rightarrow> real list \<Rightarrow> bool" where
  "checkSegments requirements relevant (lowerLight # upperLight # rest) =
     (if \<not> canCoverDistanceRange (req_minDistance requirements) (req_maxDistance requirements)
             (camerasForLightLevel (midpointLight lowerLight upperLight) relevant)
      then False
      else checkSegments requirements relevant (upperLight # rest))"
| "checkSegments requirements relevant bs = True"

definition canCoverRequirements ::
  "SoftwareCameraRequirements \<Rightarrow> HardwareCamera list \<Rightarrow> bool" where
  "canCoverRequirements requirements hardwareCameras =
     (let relevant = relevantCameras requirements hardwareCameras
      in if length relevant = 0 then False
         else checkSegments requirements relevant (sortedLightBoundaries requirements relevant))"

text \<open>The segments the loop visits: the adjacent pairs of the sorted boundary list.\<close>

definition lightSegments ::
  "SoftwareCameraRequirements \<Rightarrow> HardwareCamera list \<Rightarrow> (real \<times> real) list" where
  "lightSegments requirements relevant =
     (let bs = sortedLightBoundaries requirements relevant in zip bs (tl bs))"

section \<open>The example data of the source\<close>

definition advancedRequirements :: SoftwareCameraRequirements where
  "advancedRequirements =
     \<lparr>req_minDistance = 1, req_maxDistance = 15, req_minLightLevel = 5, req_maxLightLevel = 2000\<rparr>"

definition lowLightCam :: HardwareCamera where
  "lowLightCam = \<lparr>id = ''lowLightCam'', minDistance = 1, maxDistance = 8,
                  minLightLevel = 5, maxLightLevel = 500\<rparr>"

definition midRangeCam :: HardwareCamera where
  "midRangeCam = \<lparr>id = ''midRangeCam'', minDistance = 3, maxDistance = 12,
                  minLightLevel = 100, maxLightLevel = 1500\<rparr>"

definition brightLightCam :: HardwareCamera where
  "brightLightCam = \<lparr>id = ''brightLightCam'', minDistance = 5, maxDistance = 15,
                     minLightLevel = 800, maxLightLevel = 2000\<rparr>"

definition advancedCameras :: "HardwareCamera list" where
  "advancedCameras = [lowLightCam, midRangeCam, brightLightCam]"

definition basicRequirements :: SoftwareCameraRequirements where
  "basicRequirements =
     \<lparr>req_minDistance = 1, req_maxDistance = 10, req_minLightLevel = 10, req_maxLightLevel = 1000\<rparr>"

definition basicCam1 :: HardwareCamera where
  "basicCam1 = \<lparr>id = ''cam1'', minDistance = 1, maxDistance = 5,
                minLightLevel = 10, maxLightLevel = 1000\<rparr>"

definition basicCam2 :: HardwareCamera where
  "basicCam2 = \<lparr>id = ''cam2'', minDistance = 4, maxDistance = 10,
                minLightLevel = 10, maxLightLevel = 1000\<rparr>"

definition basicCameras :: "HardwareCamera list" where
  "basicCameras = [basicCam1, basicCam2]"

definition gapCam1 :: HardwareCamera where
  "gapCam1 = \<lparr>id = ''cam1'', minDistance = 1, maxDistance = 4,
              minLightLevel = 10, maxLightLevel = 1000\<rparr>"

definition gapCam2 :: HardwareCamera where
  "gapCam2 = \<lparr>id = ''cam2'', minDistance = 6, maxDistance = 10,
              minLightLevel = 10, maxLightLevel = 1000\<rparr>"

definition gapCameras :: "HardwareCamera list" where
  "gapCameras = [gapCam1, gapCam2]"

text \<open>
  Two further inputs, not in the source: a camera that reaches from distance 1 to 3 and works
  at light level 5 only, and requirements whose light interval is the single level 5.
\<close>

definition nearCamera :: HardwareCamera where
  "nearCamera = \<lparr>id = ''near'', minDistance = 1, maxDistance = 3,
                 minLightLevel = 5, maxLightLevel = 5\<rparr>"

definition pointLightRequirements :: SoftwareCameraRequirements where
  "pointLightRequirements =
     \<lparr>req_minDistance = 1, req_maxDistance = 10, req_minLightLevel = 5, req_maxLightLevel = 5\<rparr>"

text \<open>
  Inputs whose light bounds are the three consecutive binary64 values \<open>2^53\<close>,
  \<open>2^53 + 2\<close> and \<open>2^53 + 4\<close>: lowCam and highCam reach the whole required distance
  range, farCam does not; farCamWidened is farCam with \<open>minLightLevel\<close> lowered to 0.
\<close>

definition neighbourRequirements :: SoftwareCameraRequirements where
  "neighbourRequirements =
     \<lparr>req_minDistance = 1, req_maxDistance = 10, req_minLightLevel = 0, req_maxLightLevel = 2 ^ 54\<rparr>"

definition lowCam :: HardwareCamera where
  "lowCam = \<lparr>id = ''low'', minDistance = 1, maxDistance = 10,
             minLightLevel = 0, maxLightLevel = 2 ^ 53\<rparr>"

definition highCam :: HardwareCamera where
  "highCam = \<lparr>id = ''high'', minDistance = 1, maxDistance = 10,
              minLightLevel = 2 ^ 53 + 4, maxLightLevel = 2 ^ 54\<rparr>"

definition farCam :: HardwareCamera where
  "farCam = \<lparr>id = ''far'', minDistance = 100, maxDistance = 200,
             minLightLevel = 2 ^ 53 + 2, maxLightLevel = 2 ^ 54\<rparr>"

definition farCamWidened :: HardwareCamera where
  "farCamWidened = \<lparr>id = ''far'', minDistance = 100, maxDistance = 200,
                    minLightLevel = 0, maxLightLevel = 2 ^ 54\<rparr>"

text \<open>
  Inputs near the top of the binary64 range: the required light interval ends at
  \<open>2^1023 + 2^1022\<close>; wholeCam covers the whole required rectangle, topCam works from
  light level \<open>2^1023\<close> on.
\<close>

definition brightRequirements :: SoftwareCameraRequirements where
  "brightRequirements =
     \<lparr>req_minDistance = 1, req_maxDistance = 10,
      req_minLightLevel = 0, req_maxLightLevel = 2 ^ 1023 + 2 ^ 1022\<rparr>"

definition wholeCam :: HardwareCamera where
  "wholeCam = \<lparr>id = ''whole'', minDistance = 1, maxDistance = 10,
               minLightLevel = 0, maxLightLevel = 2 ^ 1023 + 2 ^ 1022\<rparr>"

definition topCam :: HardwareCamera where
  "topCam = \<lparr>id = ''top'', minDistance = 1, maxDistance = 10,
             minLightLevel = 2 ^ 1023, maxLightLevel = 2 ^ 1023 + 2 ^ 1022\<rparr>"

section \<open>Coverage as sets\<close>

text \<open>
  The geometric reading of the inputs: the distance interval of a camera, the union of the
  distance intervals of a camera list, the region of the (distance, light) plane a camera
  covers, and the rectangle the requirements ask for.
\<close>

definition distanceCover :: "HardwareCamera list \<Rightarrow> real set" where
  "distanceCover cameras = (\<Union>c \<in> set cameras. {minDistance c .. maxDistance c})"

definition coverageRegion :: "HardwareCamera \<Rightarrow> (real \<times> real) set" where
  "coverageRegion c = {minDistance c .. maxDistance c} \<times> {minLightLevel c .. maxLightLevel c}"

definition requiredRectangle :: "SoftwareCameraRequirements \<Rightarrow> (real \<times> real) set" where
  "requiredRectangle r =
     {req_minDistance r .. req_maxDistance r} \<times> {req_minLightLevel r .. req_maxLightLevel r}"

text \<open>
  \<open>widened c c'\<close>: camera \<open>c'\<close> is camera \<open>c\<close> with each lower bound kept or decreased
  and each upper bound kept or increased.
\<close>

definition widened :: "HardwareCamera \<Rightarrow> HardwareCamera \<Rightarrow> bool" where
  "widened c c' \<longleftrightarrow>
     minDistance c' \<le> minDistance c \<and> maxDistance c \<le> maxDistance c' \<and>
     minLightLevel c' \<le> minLightLevel c \<and> maxLightLevel c \<le> maxLightLevel c'"

text \<open>
  The camera light endpoints that lie strictly inside the required light interval: the
  values the \<open>forEach\<close> loop adds to \<open>lightBoundaries\<close>.
\<close>

definition innerEndpoints :: "SoftwareCameraRequirements \<Rightarrow> HardwareCamera list \<Rightarrow> real set" where
  "innerEndpoints r cs =
     {x. \<exists>c \<in> set cs. (x = minLightLevel c \<or> x = maxLightLevel c) \<and>
          req_minLightLevel r < x \<and> x < req_maxLightLevel r}"

section \<open>The distance sweep\<close>

lemma distanceCover_Cons:
  "distanceCover (c # cs) = {minDistance c .. maxDistance c} \<union> distanceCover cs"
  by (simp add: distanceCover_def)

lemma distanceCover_Nil: "distanceCover [] = {}"
  by (simp add: distanceCover_def)

lemma sweep_covers_start:
  "cov < hi \<Longrightarrow> sweep cov hi cs \<Longrightarrow> \<exists>c \<in> set cs. minDistance c \<le> cov \<and> cov < maxDistance c"
proof (induction cs)
  case Nil
  then show ?case by simp
next
  case (Cons c cs)
  show ?case
  proof (cases "cov < maxDistance c")
    case True
    with Cons.prems show ?thesis by (auto split: if_splits)
  next
    case False
    with Cons.prems have "sweep cov hi cs" by (auto simp: Let_def split: if_splits)
    with Cons.IH Cons.prems(1) show ?thesis by auto
  qed
qed

lemma gap_point:
  fixes cov hi m :: real
  assumes "cov < hi" "cov < m"
  shows "\<exists>x. cov < x \<and> x \<le> hi \<and> x < m"
proof -
  let ?x = "(cov + min hi m) / 2"
  have "cov < ?x" "?x \<le> hi" "?x < m" using assms by (auto simp: min_def)
  then show ?thesis by blast
qed

lemma sweep_open:
  "sorted (map minDistance cs) \<Longrightarrow> cov < hi \<Longrightarrow>
   sweep cov hi cs \<longleftrightarrow> {cov <.. hi} \<subseteq> distanceCover cs"
proof (induction cs arbitrary: cov)
  case Nil
  then have "hi \<in> {cov <.. hi}" by simp
  then show ?case by (auto simp: distanceCover_Nil)
next
  case (Cons c cs)
  from Cons.prems have srt: "sorted (map minDistance cs)"
    and low: "\<forall>d \<in> set cs. minDistance c \<le> minDistance d" by auto
  show ?case
  proof (cases "cov < minDistance c")
    case True
    from gap_point [OF Cons.prems(2) True] obtain x
      where x: "cov < x" "x \<le> hi" "x < minDistance c" by blast
    have "x \<notin> distanceCover (c # cs)"
      using x low by (fastforce simp: distanceCover_def)
    with x True show ?thesis by auto
  next
    case ge: False
    show ?thesis
    proof (cases "cov < maxDistance c")
      case ext: True
      show ?thesis
      proof (cases "hi \<le> maxDistance c")
        case True
        with ge ext show ?thesis by (auto simp: distanceCover_Cons)
      next
        case False
        then have lt: "maxDistance c < hi" by simp
        have "sweep cov hi (c # cs) = sweep (maxDistance c) hi cs"
          using ge ext False by simp
        also have "\<dots> \<longleftrightarrow> {maxDistance c <.. hi} \<subseteq> distanceCover cs"
          by (rule Cons.IH [OF srt lt])
        also have "\<dots> \<longleftrightarrow> {cov <.. hi} \<subseteq> distanceCover (c # cs)"
        proof
          assume a: "{maxDistance c <.. hi} \<subseteq> distanceCover cs"
          show "{cov <.. hi} \<subseteq> distanceCover (c # cs)"
          proof
            fix x assume "x \<in> {cov <.. hi}"
            then have x: "cov < x" "x \<le> hi" by auto
            show "x \<in> distanceCover (c # cs)"
            proof (cases "x \<le> maxDistance c")
              case True
              with x ge show ?thesis by (simp add: distanceCover_Cons)
            next
              case False
              with x have "x \<in> {maxDistance c <.. hi}" by simp
              with a show ?thesis by (auto simp: distanceCover_Cons)
            qed
          qed
        next
          assume a: "{cov <.. hi} \<subseteq> distanceCover (c # cs)"
          show "{maxDistance c <.. hi} \<subseteq> distanceCover cs"
          proof
            fix x assume "x \<in> {maxDistance c <.. hi}"
            then have x: "maxDistance c < x" "x \<le> hi" by auto
            with ext have "x \<in> {cov <.. hi}" by simp
            with a have "x \<in> distanceCover (c # cs)" by blast
            with x show "x \<in> distanceCover cs" by (simp add: distanceCover_Cons)
          qed
        qed
        finally show ?thesis .
      qed
    next
      case False
      have "sweep cov hi (c # cs) = sweep cov hi cs"
        using ge False Cons.prems(2) by simp
      also have "\<dots> \<longleftrightarrow> {cov <.. hi} \<subseteq> distanceCover cs"
        by (rule Cons.IH [OF srt Cons.prems(2)])
      also have "\<dots> \<longleftrightarrow> {cov <.. hi} \<subseteq> distanceCover (c # cs)"
        using False by (auto simp: distanceCover_Cons)
      finally show ?thesis .
    qed
  qed
qed

lemma sweep_degenerate:
  "sorted (map minDistance cs) \<Longrightarrow> hi \<le> cov \<Longrightarrow>
   sweep cov hi cs \<longleftrightarrow> (\<exists>c \<in> set cs. minDistance c \<le> cov)"
proof (cases cs)
  case Nil
  then show ?thesis by simp
next
  case (Cons c rest)
  assume "sorted (map minDistance cs)" "hi \<le> cov"
  with Cons show ?thesis by (auto simp: Let_def)
qed

lemma sortedCameras_set: "set (sortedCameras cs) = set cs"
  by (simp add: sortedCameras_def)

lemma sortedCameras_sorted: "sorted (map minDistance (sortedCameras cs))"
  by (simp add: sortedCameras_def)

lemma distanceCover_sortedCameras: "distanceCover (sortedCameras cs) = distanceCover cs"
  by (simp add: distanceCover_def sortedCameras_set)

lemma canCoverDistanceRange_open:
  "lo < hi \<Longrightarrow> canCoverDistanceRange lo hi cs \<longleftrightarrow> {lo <.. hi} \<subseteq> distanceCover cs"
  unfolding canCoverDistanceRange_def
  using sweep_open [OF sortedCameras_sorted, of lo hi cs]
  by (simp add: distanceCover_sortedCameras)

lemma canCoverDistanceRange_point:
  "hi \<le> lo \<Longrightarrow> canCoverDistanceRange lo hi cs \<longleftrightarrow> (\<exists>c \<in> set cs. minDistance c \<le> lo)"
  unfolding canCoverDistanceRange_def
  using sweep_degenerate [OF sortedCameras_sorted, of hi lo cs]
  by (simp add: sortedCameras_set)

lemma canCoverDistanceRange_closed:
  assumes "lo < hi"
  shows "canCoverDistanceRange lo hi cs \<longleftrightarrow> {lo .. hi} \<subseteq> distanceCover cs"
proof
  assume r: "canCoverDistanceRange lo hi cs"
  then have op: "{lo <.. hi} \<subseteq> distanceCover cs"
    using assms by (simp add: canCoverDistanceRange_open)
  from r have "sweep lo hi (sortedCameras cs)" by (simp add: canCoverDistanceRange_def)
  from sweep_covers_start [OF assms this]
  have "lo \<in> distanceCover cs" by (auto simp: distanceCover_def sortedCameras_set)
  with op show "{lo .. hi} \<subseteq> distanceCover cs"
    by (auto simp: subset_iff less_le)
next
  assume "{lo .. hi} \<subseteq> distanceCover cs"
  then have "{lo <.. hi} \<subseteq> distanceCover cs" by (auto simp: subset_iff)
  then show "canCoverDistanceRange lo hi cs"
    using assms by (simp add: canCoverDistanceRange_open)
qed

subsection \<open>Monotonicity of the distance check\<close>

lemma canCoverDistanceRange_mono:
  assumes dom: "\<forall>c \<in> set cs. \<exists>c' \<in> set cs'.
                  minDistance c' \<le> minDistance c \<and> maxDistance c \<le> maxDistance c'"
    and cov: "canCoverDistanceRange lo hi cs"
  shows "canCoverDistanceRange lo hi cs'"
proof (cases "lo < hi")
  case True
  have "distanceCover cs \<subseteq> distanceCover cs'"
  proof
    fix x assume "x \<in> distanceCover cs"
    then obtain c where c: "c \<in> set cs" "minDistance c \<le> x" "x \<le> maxDistance c"
      by (auto simp: distanceCover_def)
    from dom c(1) obtain c' where "c' \<in> set cs'"
      "minDistance c' \<le> minDistance c" "maxDistance c \<le> maxDistance c'" by blast
    with c have "c' \<in> set cs'" "minDistance c' \<le> x" "x \<le> maxDistance c'" by auto
    then show "x \<in> distanceCover cs'" unfolding distanceCover_def by auto
  qed
  with cov True show ?thesis by (auto simp: canCoverDistanceRange_open)
next
  case False
  then have le: "hi \<le> lo" by simp
  from cov obtain c where c: "c \<in> set cs" "minDistance c \<le> lo"
    by (auto simp: canCoverDistanceRange_point [OF le])
  from dom c(1) obtain c' where "c' \<in> set cs'" "minDistance c' \<le> minDistance c" by blast
  with c have "c' \<in> set cs'" "minDistance c' \<le> lo" by auto
  then have "\<exists>d \<in> set cs'. minDistance d \<le> lo" by blast
  then show ?thesis by (simp only: canCoverDistanceRange_point [OF le])
qed

lemma canCoverDistanceRange_Nil: "\<not> canCoverDistanceRange lo hi []"
  by (simp add: canCoverDistanceRange_def sortedCameras_def)

subsection \<open>The light boundaries\<close>

lemma set_set_add: "set (set_add x xs) = insert x (set xs)"
  by (auto simp: set_add_def)

lemma distinct_set_add: "distinct xs \<Longrightarrow> distinct (set_add x xs)"
  by (simp add: set_add_def)

lemma set_addCameraBoundaries:
  "set (addCameraBoundaries r bs c) = set bs \<union> innerEndpoints r [c]"
  by (auto simp: addCameraBoundaries_def innerEndpoints_def set_set_add Let_def)

lemma distinct_addCameraBoundaries:
  "distinct bs \<Longrightarrow> distinct (addCameraBoundaries r bs c)"
  by (simp add: addCameraBoundaries_def distinct_set_add Let_def)

lemma innerEndpoints_Cons:
  "innerEndpoints r (c # cs) = innerEndpoints r [c] \<union> innerEndpoints r cs"
  by (auto simp: innerEndpoints_def)

lemma set_foldl_boundaries:
  "set (foldl (addCameraBoundaries r) bs cs) = set bs \<union> innerEndpoints r cs"
proof (induction cs arbitrary: bs)
  case Nil
  show ?case by (simp add: innerEndpoints_def)
next
  case (Cons c cs)
  show ?case
    by (simp add: Cons.IH set_addCameraBoundaries innerEndpoints_Cons [of r c cs] Un_assoc)
qed

lemma distinct_foldl_boundaries:
  "distinct bs \<Longrightarrow> distinct (foldl (addCameraBoundaries r) bs cs)"
  by (induction cs arbitrary: bs) (simp_all add: distinct_addCameraBoundaries)

lemma set_lightBoundaries:
  "set (lightBoundaries r cs) =
     {req_minLightLevel r, req_maxLightLevel r} \<union> innerEndpoints r cs"
  by (auto simp: lightBoundaries_def set_foldl_boundaries set_set_add)

lemma distinct_lightBoundaries: "distinct (lightBoundaries r cs)"
  by (simp add: lightBoundaries_def distinct_foldl_boundaries distinct_set_add)

lemma set_sortedLightBoundaries:
  "set (sortedLightBoundaries r cs) =
     {req_minLightLevel r, req_maxLightLevel r} \<union> innerEndpoints r cs"
  by (simp add: sortedLightBoundaries_def set_lightBoundaries)

lemma sorted_sortedLightBoundaries: "sorted (sortedLightBoundaries r cs)"
  by (simp add: sortedLightBoundaries_def)

lemma distinct_sortedLightBoundaries: "distinct (sortedLightBoundaries r cs)"
  by (simp add: sortedLightBoundaries_def distinct_lightBoundaries)

lemma boundaries_within:
  assumes "req_minLightLevel r \<le> req_maxLightLevel r" "b \<in> set (sortedLightBoundaries r cs)"
  shows "req_minLightLevel r \<le> b \<and> b \<le> req_maxLightLevel r"
  using assms by (auto simp: set_sortedLightBoundaries innerEndpoints_def)

subsection \<open>Rounding to binary64\<close>

lemma binade_from_eq:
  "e \<le> k \<Longrightarrow> nat (k - e) \<le> n \<Longrightarrow> (e < k \<longrightarrow> 2 powi k \<le> \<bar>x\<bar>) \<Longrightarrow>
     \<bar>x\<bar> < 2 powi (k + 1) \<Longrightarrow> binade_from n e x = k"
proof (induction n arbitrary: e)
  case 0
  then show ?case by simp
next
  case (Suc n)
  show ?case
  proof (cases "\<bar>x\<bar> < 2 powi (e + 1)")
    case True
    have "e = k"
    proof (rule ccontr)
      assume "e \<noteq> k"
      with Suc.prems(1) have lt: "e < k" by simp
      then have "(2::real) powi (e + 1) \<le> 2 powi k"
        by (intro power_int_increasing) auto
      with Suc.prems(3) lt True show False by simp
    qed
    with True show ?thesis by simp
  next
    case False
    have "e \<noteq> k" using False Suc.prems(4) by auto
    with Suc.prems(1) have lt: "e < k" by simp
    have "binade_from n (e + 1) x = k"
    proof (rule Suc.IH)
      show "e + 1 \<le> k" using lt by simp
      show "nat (k - (e + 1)) \<le> n" using Suc.prems(2) lt by simp
      show "e + 1 < k \<longrightarrow> 2 powi k \<le> \<bar>x\<bar>" using Suc.prems(3) lt by simp
      show "\<bar>x\<bar> < 2 powi (k + 1)" by (rule Suc.prems(4))
    qed
    with False show ?thesis by simp
  qed
qed

lemma binade_eq:
  assumes "- 1022 \<le> k" "k \<le> 1024" "- 1022 < k \<longrightarrow> 2 powi k \<le> \<bar>x\<bar>" "\<bar>x\<bar> < 2 powi (k + 1)"
  shows "binade x = k"
  unfolding binade_def using assms by (intro binade_from_eq) auto

lemma binade_from_le:
  "e \<le> j \<Longrightarrow> \<bar>x\<bar> < 2 powi (j + 1) \<Longrightarrow> binade_from n e x \<le> j"
proof (induction n arbitrary: e)
  case 0
  then show ?case by simp
next
  case (Suc n)
  show ?case
  proof (cases "\<bar>x\<bar> < 2 powi (e + 1)")
    case True
    with Suc.prems show ?thesis by simp
  next
    case False
    have "e < j"
    proof (rule ccontr)
      assume "\<not> e < j"
      with Suc.prems(1) have "e = j" by simp
      with False Suc.prems(2) show False by simp
    qed
    then have "binade_from n (e + 1) x \<le> j" using Suc.IH Suc.prems(2) by simp
    with False show ?thesis by simp
  qed
qed

lemma binade_le: "- 1022 \<le> j \<Longrightarrow> \<bar>x\<bar> < 2 powi (j + 1) \<Longrightarrow> binade x \<le> j"
  unfolding binade_def by (rule binade_from_le)

lemma round_half_even_of_int: "round_half_even (of_int z) = z"
  by (simp add: round_half_even_def)

text \<open>A value \<open>m * 2^k\<close> with \<open>|m| < 2^53\<close> and exponent in range is a binary64 value.\<close>

lemma to_binary64_exact:
  assumes x: "x = of_int m * 2 powi k" and m: "\<bar>m\<bar> < 2 ^ 53" and k: "- 1074 \<le> k" "k \<le> 971"
  shows "to_binary64 x = Finite x"
proof -
  have pos: "(0::real) < 2 powi k" by simp
  have am: "\<bar>of_int m :: real\<bar> < 2 ^ 53"
  proof -
    have "\<bar>of_int m :: real\<bar> = of_int \<bar>m\<bar>" by simp
    also have "\<dots> < of_int (2 ^ 53)" using m by (simp only: of_int_less_iff)
    finally show ?thesis by simp
  qed
  have ax: "\<bar>x\<bar> = \<bar>of_int m\<bar> * 2 powi k" by (simp add: x abs_mult)
  have "\<bar>x\<bar> < 2 ^ 53 * 2 powi k" unfolding ax using am pos by (intro mult_strict_right_mono)
  also have "\<dots> = 2 powi (k + 53)" by (simp add: power_int_add)
  finally have bound: "\<bar>x\<bar> < 2 powi (k + 53)" .
  let ?j = "max (k + 52) (- 1022)"
  have "(2::real) powi (k + 53) \<le> 2 powi (?j + 1)" by (intro power_int_increasing) auto
  with bound have "\<bar>x\<bar> < 2 powi (?j + 1)" by simp
  then have "binade x \<le> ?j" by (intro binade_le) auto
  then have d: "0 \<le> k - (binade x - 52)" using k(1) by auto
  define n where "n = nat (k - (binade x - 52))"
  define q :: real where "q = 2 powi (binade x - 52)"
  have q: "0 < q" by (simp add: q_def)
  have "(2::real) powi k = 2 powi ((binade x - 52) + int n)" using d by (simp add: n_def)
  also have "\<dots> = q * 2 ^ n" by (simp add: power_int_add q_def)
  finally have "x = of_int (m * 2 ^ n) * q" by (simp add: x)
  then have xq: "x / q = of_int (m * 2 ^ n)" using q by simp
  then have r: "round_half_even (x / q) = m * 2 ^ n"
    by (simp only: round_half_even_of_int)
  have v: "of_int (m * 2 ^ n) * q = x" using xq q by (simp add: field_simps)
  have "(2::real) powi (k + 53) \<le> 2 powi 1024" using k(2) by (intro power_int_increasing) auto
  with bound have "\<bar>x\<bar> < 2 ^ 1024" by simp
  then show ?thesis
    unfolding to_binary64_def Let_def q_def [symmetric] r v by simp
qed

lemma to_binary64_finite:
  assumes "binade x = e" "round_half_even (x / 2 powi (e - 52)) = n"
    "v = of_int n * 2 powi (e - 52)" "\<bar>v\<bar> < 2 ^ 1024"
  shows "to_binary64 x = Finite v"
  using assms by (simp add: to_binary64_def Let_def)

lemma to_binary64_overflow:
  assumes "binade x = e" "round_half_even (x / 2 powi (e - 52)) = n"
    "2 ^ 1024 \<le> \<bar>of_int n * 2 powi (e - 52) :: real\<bar>" "0 < x"
  shows "to_binary64 x = PosInfinity"
  using assms by (simp add: to_binary64_def Let_def)

lemma to_binary64_int:
  "\<bar>m\<bar> < 2 ^ 53 \<Longrightarrow> to_binary64 (of_int m) = Finite (of_int m)"
  using to_binary64_exact [of "of_int m" m 0] by simp

lemma midpointLight_exact:
  assumes "to_binary64 (a + b) = Finite (a + b)"
    and "to_binary64 ((a + b) / 2) = Finite ((a + b) / 2)"
  shows "midpointLight a b = Finite ((a + b) / 2)"
  using assms by (simp add: midpointLight_def)

lemma midpointLight_overflow:
  "to_binary64 (a + b) = PosInfinity \<Longrightarrow> midpointLight a b = PosInfinity"
  by (simp add: midpointLight_def)

subsection \<open>The requirement check, segment by segment\<close>

lemma checkSegments_iff:
  "checkSegments r rel bs \<longleftrightarrow>
     (\<forall>(a, b) \<in> set (zip bs (tl bs)).
        canCoverDistanceRange (req_minDistance r) (req_maxDistance r)
          (camerasForLightLevel (midpointLight a b) rel))"
  by (induction r rel bs rule: checkSegments.induct) auto

lemma canCoverRequirements_segments:
  "canCoverRequirements r cs \<longleftrightarrow>
     relevantCameras r cs \<noteq> [] \<and>
     (\<forall>(a, b) \<in> set (lightSegments r (relevantCameras r cs)).
        canCoverDistanceRange (req_minDistance r) (req_maxDistance r)
          (camerasForLightLevel (midpointLight a b) (relevantCameras r cs)))"
  by (simp add: canCoverRequirements_def lightSegments_def Let_def checkSegments_iff)

lemma set_relevantCameras:
  "set (relevantCameras r cs) =
     {c \<in> set cs. req_minLightLevel r \<le> maxLightLevel c \<and> minLightLevel c \<le> req_maxLightLevel r}"
  by (auto simp: relevantCameras_def)

lemma set_camerasForLightLevel:
  "set (camerasForLightLevel m cs) =
     {c \<in> set cs. at_most (minLightLevel c) m \<and> at_least (maxLightLevel c) m}"
  by (auto simp: camerasForLightLevel_def)


subsection \<open>Requirements whose light interval is a point\<close>

lemma foldl_boundaries_unchanged:
  "req_maxLightLevel r \<le> req_minLightLevel r \<Longrightarrow>
     foldl (addCameraBoundaries r) bs cs = bs"
  by (induction cs arbitrary: bs) (auto simp: addCameraBoundaries_def Let_def)

lemma lightBoundaries_point:
  "req_minLightLevel r = req_maxLightLevel r \<Longrightarrow>
     lightBoundaries r cs = [req_minLightLevel r]"
  by (simp add: lightBoundaries_def foldl_boundaries_unchanged set_add_def)

lemma canCoverRequirements_point:
  "req_minLightLevel r = req_maxLightLevel r \<Longrightarrow>
     canCoverRequirements r cs \<longleftrightarrow> relevantCameras r cs \<noteq> []"
  by (simp add: canCoverRequirements_def sortedLightBoundaries_def lightBoundaries_point Let_def)

subsection \<open>The results depend on the set of cameras only\<close>

lemma canCoverDistanceRange_set_cong:
  assumes "set cs = set cs'"
  shows "canCoverDistanceRange lo hi cs = canCoverDistanceRange lo hi cs'"
proof -
  have "\<forall>c \<in> set cs. \<exists>c' \<in> set cs'.
          minDistance c' \<le> minDistance c \<and> maxDistance c \<le> maxDistance c'"
    and "\<forall>c \<in> set cs'. \<exists>c' \<in> set cs.
          minDistance c' \<le> minDistance c \<and> maxDistance c \<le> maxDistance c'"
    using assms by auto
  then show ?thesis
    using canCoverDistanceRange_mono [of cs cs' lo hi] canCoverDistanceRange_mono [of cs' cs lo hi]
    by blast
qed

lemma innerEndpoints_set_cong: "set cs = set cs' \<Longrightarrow> innerEndpoints r cs = innerEndpoints r cs'"
  by (simp add: innerEndpoints_def)

lemma sortedLightBoundaries_set_cong:
  assumes "set rel = set rel'"
  shows "sortedLightBoundaries r rel = sortedLightBoundaries r rel'"
proof (rule sorted_distinct_set_unique)
  show "set (sortedLightBoundaries r rel) = set (sortedLightBoundaries r rel')"
    by (simp add: set_sortedLightBoundaries innerEndpoints_set_cong [OF assms])
qed (simp_all add: sorted_sortedLightBoundaries distinct_sortedLightBoundaries)

lemma checkSegments_set_cong:
  assumes "set rel = set rel'"
  shows "checkSegments r rel bs = checkSegments r rel' bs"
proof -
  have "set (camerasForLightLevel m rel) = set (camerasForLightLevel m rel')" for m
    using assms by (simp add: set_camerasForLightLevel)
  then have "canCoverDistanceRange lo hi (camerasForLightLevel m rel) =
             canCoverDistanceRange lo hi (camerasForLightLevel m rel')" for lo hi m
    by (rule canCoverDistanceRange_set_cong)
  then show ?thesis by (simp add: checkSegments_iff)
qed

lemma canCoverRequirements_set_cong:
  assumes "set cs = set cs'"
  shows "canCoverRequirements r cs = canCoverRequirements r cs'"
proof -
  let ?rel = "relevantCameras r cs" and ?rel' = "relevantCameras r cs'"
  have s: "set ?rel = set ?rel'" using assms by (simp add: set_relevantCameras)
  then have e: "?rel = [] \<longleftrightarrow> ?rel' = []" by (metis set_empty)
  have "checkSegments r ?rel (sortedLightBoundaries r ?rel) =
        checkSegments r ?rel' (sortedLightBoundaries r ?rel')"
    using checkSegments_set_cong [OF s] sortedLightBoundaries_set_cong [OF s] by simp
  with e show ?thesis by (simp add: canCoverRequirements_def Let_def)
qed

subsection \<open>Unfolding for evaluation\<close>

lemmas example_defs =
  advancedRequirements_def advancedCameras_def lowLightCam_def midRangeCam_def brightLightCam_def
  basicRequirements_def basicCameras_def basicCam1_def basicCam2_def
  gapCameras_def gapCam1_def gapCam2_def nearCamera_def pointLightRequirements_def
  neighbourRequirements_def lowCam_def highCam_def farCam_def farCamWidened_def
  brightRequirements_def wholeCam_def topCam_def

lemmas run_defs =
  canCoverRequirements_def relevantCameras_def sortedLightBoundaries_def lightBoundaries_def
  addCameraBoundaries_def set_add_def camerasForLightLevel_def canCoverDistanceRange_def
  sortedCameras_def lightSegments_def

text \<open>The midpoints of the light segments of the advanced scenario are exact.\<close>

lemma advanced_midpoints:
  "midpointLight 5 100 = Finite (105 / 2)"
  "midpointLight 100 500 = Finite 300"
  "midpointLight 500 800 = Finite 650"
  "midpointLight 800 1500 = Finite 1150"
  "midpointLight 1500 2000 = Finite 1750"
proof -
  show "midpointLight 5 100 = Finite (105 / 2)"
    using to_binary64_int [of 105] to_binary64_exact [of "105 / 2" 105 "- 1"]
    by (simp add: midpointLight_def)
  show "midpointLight 100 500 = Finite 300"
    using to_binary64_int [of 600] to_binary64_int [of 300] by (simp add: midpointLight_def)
  show "midpointLight 500 800 = Finite 650"
    using to_binary64_int [of 1300] to_binary64_int [of 650] by (simp add: midpointLight_def)
  show "midpointLight 800 1500 = Finite 1150"
    using to_binary64_int [of 2300] to_binary64_int [of 1150] by (simp add: midpointLight_def)
  show "midpointLight 1500 2000 = Finite 1750"
    using to_binary64_int [of 3500] to_binary64_int [of 1750] by (simp add: midpointLight_def)
qed


text \<open>
  Between the consecutive binary64 values \<open>2^53\<close>, \<open>2^53 + 2\<close> and \<open>2^53 + 4\<close> the
  sum of two neighbours is a tie and rounds to the even significand, so that the midpoint
  of two neighbours is one of them.
\<close>

lemma sum_low_neighbours: "to_binary64 (2 ^ 54 + 2) = Finite (2 ^ 54)"
proof (rule to_binary64_finite)
  show "binade (2 ^ 54 + 2) = 54" by (rule binade_eq) simp_all
  show "round_half_even ((2 ^ 54 + 2) / 2 powi (54 - 52)) = 2 ^ 52"
    by (simp add: round_half_even_def)
qed simp_all

lemma sum_high_neighbours: "to_binary64 (2 ^ 54 + 6) = Finite (2 ^ 54 + 8)"
proof (rule to_binary64_finite)
  show "binade (2 ^ 54 + 6) = 54" by (rule binade_eq) simp_all
  show "round_half_even ((2 ^ 54 + 6) / 2 powi (54 - 52)) = 2 ^ 52 + 2"
    by (simp add: round_half_even_def)
qed simp_all

lemma neighbour_midpoints:
  "midpointLight 0 (2 ^ 53) = Finite (2 ^ 52)"
  "midpointLight (2 ^ 53) (2 ^ 53 + 2) = Finite (2 ^ 53)"
  "midpointLight (2 ^ 53 + 2) (2 ^ 53 + 4) = Finite (2 ^ 53 + 4)"
  "midpointLight (2 ^ 53) (2 ^ 53 + 4) = Finite (2 ^ 53 + 2)"
  "midpointLight (2 ^ 53 + 4) (2 ^ 54) = Finite (3 * 2 ^ 52 + 2)"
proof -
  show "midpointLight 0 (2 ^ 53) = Finite (2 ^ 52)"
    using to_binary64_exact [of "2 ^ 53" 1 53] to_binary64_exact [of "2 ^ 52" 1 52]
    by (simp add: midpointLight_def)
  show "midpointLight (2 ^ 53) (2 ^ 53 + 2) = Finite (2 ^ 53)"
    using sum_low_neighbours to_binary64_exact [of "2 ^ 53" 1 53]
    by (simp add: midpointLight_def)
  show "midpointLight (2 ^ 53 + 2) (2 ^ 53 + 4) = Finite (2 ^ 53 + 4)"
    using sum_high_neighbours to_binary64_exact [of "2 ^ 53 + 4" "2 ^ 51 + 1" 2]
    by (simp add: midpointLight_def)
  show "midpointLight (2 ^ 53) (2 ^ 53 + 4) = Finite (2 ^ 53 + 2)"
    using to_binary64_exact [of "2 ^ 54 + 4" "2 ^ 52 + 1" 2]
      to_binary64_exact [of "2 ^ 53 + 2" "2 ^ 52 + 1" 1]
    by (simp add: midpointLight_def)
  show "midpointLight (2 ^ 53 + 4) (2 ^ 54) = Finite (3 * 2 ^ 52 + 2)"
    using to_binary64_exact [of "3 * 2 ^ 53 + 4" "3 * 2 ^ 51 + 1" 2]
      to_binary64_exact [of "3 * 2 ^ 52 + 2" "3 * 2 ^ 51 + 1" 1]
    by (simp add: midpointLight_def)
qed

text \<open>Near the top of the range the sum of two boundaries overflows.\<close>

lemma bright_midpoints:
  "midpointLight 0 (2 ^ 1023 + 2 ^ 1022) = Finite (2 ^ 1022 + 2 ^ 1021)"
  "midpointLight 0 (2 ^ 1023) = Finite (2 ^ 1022)"
  "midpointLight (2 ^ 1023) (2 ^ 1023 + 2 ^ 1022) = PosInfinity"
proof -
  show "midpointLight 0 (2 ^ 1023 + 2 ^ 1022) = Finite (2 ^ 1022 + 2 ^ 1021)"
    using to_binary64_exact [of "2 ^ 1023 + 2 ^ 1022" "3 * 2 ^ 51" 971]
      to_binary64_exact [of "2 ^ 1022 + 2 ^ 1021" "3 * 2 ^ 51" 970]
    by (simp add: midpointLight_def)
  show "midpointLight 0 (2 ^ 1023) = Finite (2 ^ 1022)"
    using to_binary64_exact [of "2 ^ 1023" "2 ^ 52" 971]
      to_binary64_exact [of "2 ^ 1022" "2 ^ 52" 970]
    by (simp add: midpointLight_def)
  have "to_binary64 (2 ^ 1023 + (2 ^ 1023 + 2 ^ 1022)) = PosInfinity"
  proof (rule to_binary64_overflow)
    show "binade (2 ^ 1023 + (2 ^ 1023 + 2 ^ 1022)) = 1024" by (rule binade_eq) simp_all
    show "round_half_even ((2 ^ 1023 + (2 ^ 1023 + 2 ^ 1022)) / 2 powi (1024 - 52)) = 5 * 2 ^ 50"
      by (simp add: round_half_even_def)
  qed simp_all
  then show "midpointLight (2 ^ 1023) (2 ^ 1023 + 2 ^ 1022) = PosInfinity"
    by (rule midpointLight_overflow)
qed

section \<open>Claims\<close>

text \<open>
  C1. The claim: for every requirement rectangle with \<open>lo \<le> hi\<close> on both axes and every
  camera list, \<open>canCoverRequirements\<close> returns true exactly when the union of the
  cameras' coverage regions contains the required rectangle. The code departs from this
  when the required light interval is a single level: for the requirement with distance
  \<open>[1, 10]\<close> and light \<open>[5, 5]\<close> and the one camera with distance \<open>[1, 3]\<close> and light
  \<open>[5, 5]\<close> it returns true, although the point at distance 10 and light 5 of the required
  rectangle lies in no coverage region.
\<close>

theorem C1_point_light_uncovered_accepted:
  "canCoverRequirements pointLightRequirements [nearCamera] \<and>
   \<not> requiredRectangle pointLightRequirements \<subseteq> (\<Union>c \<in> set [nearCamera]. coverageRegion c)"
proof -
  have "canCoverRequirements pointLightRequirements [nearCamera]"
    by (simp add: run_defs example_defs)
  moreover have "(10, 5) \<in> requiredRectangle pointLightRequirements"
    by (simp add: requiredRectangle_def example_defs)
  moreover have "(10, 5) \<notin> (\<Union>c \<in> set [nearCamera]. coverageRegion c)"
    by (simp add: coverageRegion_def example_defs)
  ultimately show ?thesis by blast
qed

text \<open>
  C2. The claim: for every target interval with \<open>lo \<le> hi\<close> and every list of well-formed
  cameras, \<open>canCoverDistanceRange\<close> returns true exactly when the union of the cameras'
  distance intervals contains the whole target. The code departs from this when the target
  is a single point: for the target \<open>[5, 5]\<close> and the one well-formed camera with distance
  \<open>[1, 3]\<close> it returns true, although 5 lies outside \<open>[1, 3]\<close>. (Lemma
  \<open>canCoverDistanceRange_closed\<close> shows that the equivalence holds whenever \<open>lo < hi\<close>.)
\<close>

theorem C2_point_target_uncovered_accepted:
  "canCoverDistanceRange 5 5 [nearCamera] \<and>
   minDistance nearCamera \<le> maxDistance nearCamera \<and>
   \<not> {5 .. 5} \<subseteq> distanceCover [nearCamera]"
  by (simp add: run_defs example_defs distanceCover_def)

text \<open>
  C3. When the required light interval is a single level and at least one camera survives
  the light pre-filter, the sorted boundary list is that one level, there is no segment
  for the loop to visit, and \<open>canCoverRequirements\<close> returns true.
\<close>

theorem C3_degenerate_light_true:
  assumes "req_minLightLevel r = req_maxLightLevel r"
    and "relevantCameras r cs \<noteq> []"
  shows "sortedLightBoundaries r (relevantCameras r cs) = [req_minLightLevel r] \<and>
         lightSegments r (relevantCameras r cs) = [] \<and>
         canCoverRequirements r cs"
  using assms
  by (simp add: canCoverRequirements_point lightSegments_def sortedLightBoundaries_def
      lightBoundaries_point)

theorem C3_degenerate_light_true_witness:
  "req_minLightLevel pointLightRequirements = req_maxLightLevel pointLightRequirements \<and>
   relevantCameras pointLightRequirements [nearCamera] \<noteq> [] \<and>
   sortedLightBoundaries pointLightRequirements
     (relevantCameras pointLightRequirements [nearCamera]) = [5] \<and>
   lightSegments pointLightRequirements (relevantCameras pointLightRequirements [nearCamera]) = [] \<and>
   canCoverRequirements pointLightRequirements [nearCamera]"
proof -
  have h1: "req_minLightLevel pointLightRequirements = req_maxLightLevel pointLightRequirements"
    by (simp add: example_defs)
  have h2: "relevantCameras pointLightRequirements [nearCamera] \<noteq> []"
    by (simp add: relevantCameras_def example_defs)
  have "req_minLightLevel pointLightRequirements = 5" by (simp add: example_defs)
  with C3_degenerate_light_true [OF h1 h2] h1 h2 show ?thesis by simp
qed

text \<open>
  C4. The claim: monotonicity. A true result of \<open>canCoverRequirements\<close> stays true when
  one camera is widened, and a false result stays false when one camera is removed. The
  code departs from both halves, through the rounding of the segment midpoint.
  With light bounds at the consecutive binary64 values \<open>2^53\<close>, \<open>2^53 + 2\<close>,
  \<open>2^53 + 4\<close>, the cameras lowCam, highCam and farCam give true (each midpoint of two
  neighbouring boundaries rounds to a boundary at which lowCam or highCam is active), and
  after farCam's \<open>minLightLevel\<close> is lowered to 0 the result is false. With the required
  light interval ending at \<open>2^1023 + 2^1022\<close>, wholeCam and topCam give false (the
  midpoint of the segment from \<open>2^1023\<close> overflows to infinity), and wholeCam alone gives
  true. Both departures are wrong answers of the coverage check itself: the first list
  leaves the point at distance 1 and light \<open>2^53 + 2\<close> uncovered, and in the second list
  wholeCam covers the whole required rectangle.
\<close>

theorem C4_rounded_midpoint_not_monotone:
  "canCoverRequirements neighbourRequirements [lowCam, highCam, farCam] \<and>
   widened farCam farCamWidened \<and>
   \<not> canCoverRequirements neighbourRequirements [lowCam, highCam, farCamWidened] \<and>
   \<not> canCoverRequirements brightRequirements [wholeCam, topCam] \<and>
   canCoverRequirements brightRequirements [wholeCam] \<and>
   \<not> requiredRectangle neighbourRequirements \<subseteq>
       (\<Union>c \<in> set [lowCam, highCam, farCam]. coverageRegion c) \<and>
   requiredRectangle brightRequirements \<subseteq> (\<Union>c \<in> set [wholeCam, topCam]. coverageRegion c)"
proof -
  have "canCoverRequirements neighbourRequirements [lowCam, highCam, farCam]"
    using neighbour_midpoints by (simp add: run_defs example_defs)
  moreover have "widened farCam farCamWidened"
    by (simp add: widened_def example_defs)
  moreover have "\<not> canCoverRequirements neighbourRequirements [lowCam, highCam, farCamWidened]"
    using neighbour_midpoints by (simp add: run_defs example_defs)
  moreover have "\<not> canCoverRequirements brightRequirements [wholeCam, topCam]"
    using bright_midpoints by (simp add: run_defs example_defs)
  moreover have "canCoverRequirements brightRequirements [wholeCam]"
    using bright_midpoints by (simp add: run_defs example_defs)
  moreover have "\<not> requiredRectangle neighbourRequirements \<subseteq>
                   (\<Union>c \<in> set [lowCam, highCam, farCam]. coverageRegion c)"
  proof -
    have "(1, 2 ^ 53 + 2) \<in> requiredRectangle neighbourRequirements"
      by (simp add: requiredRectangle_def example_defs)
    moreover have "(1, 2 ^ 53 + 2) \<notin> (\<Union>c \<in> set [lowCam, highCam, farCam]. coverageRegion c)"
      by (simp add: coverageRegion_def example_defs)
    ultimately show ?thesis by blast
  qed
  moreover have "requiredRectangle brightRequirements \<subseteq>
                   (\<Union>c \<in> set [wholeCam, topCam]. coverageRegion c)"
    by (simp add: requiredRectangle_def coverageRegion_def example_defs)
  ultimately show ?thesis by blast
qed

text \<open>
  C5. Order-independence. On two camera lists that are permutations of each other (equal
  as multisets), \<open>canCoverRequirements\<close> returns the same result for every requirement,
  and \<open>canCoverDistanceRange\<close> returns the same result for every target.
\<close>

theorem C5_order_independent:
  assumes "mset cs = mset cs'"
  shows "canCoverRequirements r cs = canCoverRequirements r cs' \<and>
         canCoverDistanceRange lo hi cs = canCoverDistanceRange lo hi cs'"
proof -
  from assms have s: "set cs = set cs'" by (rule mset_eq_setD)
  show ?thesis
    using canCoverRequirements_set_cong [OF s] canCoverDistanceRange_set_cong [OF s] by simp
qed

theorem C5_order_independent_witness:
  "mset [basicCam1, basicCam2] = mset [basicCam2, basicCam1] \<and>
   canCoverRequirements basicRequirements [basicCam1, basicCam2] =
     canCoverRequirements basicRequirements [basicCam2, basicCam1] \<and>
   canCoverDistanceRange 1 10 [basicCam1, basicCam2] =
     canCoverDistanceRange 1 10 [basicCam2, basicCam1]"
proof -
  have h: "mset [basicCam1, basicCam2] = mset [basicCam2, basicCam1]" by simp
  from C5_order_independent [OF h, of basicRequirements 1 10] h show ?thesis by blast
qed

text \<open>
  C6. With no cameras, \<open>canCoverDistanceRange\<close> returns false for every target, a
  single-point target included, and \<open>canCoverRequirements\<close> returns false for every
  requirement, so in particular for every non-degenerate one.
\<close>

theorem C6_no_cameras:
  "canCoverDistanceRange lo hi [] = False \<and> canCoverRequirements r [] = False"
  by (simp add: canCoverDistanceRange_Nil canCoverRequirements_def relevantCameras_def)



text \<open>
  C8. The advanced scenario of the source: for the requirement with distance \<open>[1, 15]\<close>
  and light \<open>[5, 2000]\<close> and the cameras lowLightCam, midRangeCam and brightLightCam,
  \<open>canCoverRequirements\<close> returns false. The light segments are those between 5, 100,
  500, 800, 1500 and 2000; the midpoint of the segment from 500 to 800 is 650, only
  midRangeCam is active there, and it does not cover the distance range \<open>[1, 15]\<close>.
\<close>

theorem C8_advanced_scenario:
  "canCoverRequirements advancedRequirements advancedCameras = False \<and>
   lightSegments advancedRequirements (relevantCameras advancedRequirements advancedCameras) =
     [(5, 100), (100, 500), (500, 800), (800, 1500), (1500, 2000)] \<and>
   midpointLight 500 800 = Finite 650 \<and>
   camerasForLightLevel (midpointLight 500 800)
     (relevantCameras advancedRequirements advancedCameras) = [midRangeCam] \<and>
   canCoverDistanceRange (req_minDistance advancedRequirements)
     (req_maxDistance advancedRequirements) [midRangeCam] = False"
  by (simp add: run_defs example_defs advanced_midpoints)

text \<open>
  C9. For a single-point target \<open>[p, p]\<close>, \<open>canCoverDistanceRange\<close> returns true exactly
  when some camera of the list has \<open>minDistance \<le> p\<close>, whether or not the point lies in
  that camera's interval. This holds for every camera list, so in particular for the
  non-empty lists of well-formed cameras; the camera with distance \<open>[1, 3]\<close> against the
  target \<open>[5, 5]\<close> is the instance below.
\<close>

theorem C9_point_target:
  "canCoverDistanceRange p p cs \<longleftrightarrow> (\<exists>c \<in> set cs. minDistance c \<le> p)"
  by (rule canCoverDistanceRange_point) simp

theorem C9_point_target_witness:
  "[nearCamera] \<noteq> [] \<and>
   minDistance nearCamera \<le> maxDistance nearCamera \<and>
   (\<exists>c \<in> set [nearCamera]. minDistance c \<le> 5) \<and>
   canCoverDistanceRange 5 5 [nearCamera] \<and>
   \<not> (\<exists>c \<in> set [nearCamera]. 5 \<in> {minDistance c .. maxDistance c})"
proof -
  have h: "\<exists>c \<in> set [nearCamera]. minDistance c \<le> 5" by (simp add: example_defs)
  with C9_point_target [of 5 "[nearCamera]"] have "canCoverDistanceRange 5 5 [nearCamera]"
    by blast
  moreover have "minDistance nearCamera \<le> maxDistance nearCamera"
    "\<not> (\<exists>c \<in> set [nearCamera]. 5 \<in> {minDistance c .. maxDistance c})"
    by (simp_all add: example_defs)
  ultimately show ?thesis using h by blast
qed

text \<open>
  C10. \<open>canCoverDistanceRange\<close> reads only \<open>minDistance\<close> and \<open>maxDistance\<close>: on two
  camera lists that agree position by position on these two fields, whatever their
  \<open>id\<close>, \<open>minLightLevel\<close> and \<open>maxLightLevel\<close>, it returns the same result for every
  target range.
\<close>

theorem C10_distance_fields_only:
  assumes "map (\<lambda>c. (minDistance c, maxDistance c)) cs =
           map (\<lambda>c. (minDistance c, maxDistance c)) cs'"
  shows "canCoverDistanceRange lo hi cs = canCoverDistanceRange lo hi cs'"
proof -
  from assms have s: "(\<lambda>c. (minDistance c, maxDistance c)) ` set cs =
                      (\<lambda>c. (minDistance c, maxDistance c)) ` set cs'"
    by (metis set_map)
  have a: "\<forall>c \<in> set cs. \<exists>c' \<in> set cs'.
             minDistance c' \<le> minDistance c \<and> maxDistance c \<le> maxDistance c'"
  proof
    fix c assume "c \<in> set cs"
    then have "(minDistance c, maxDistance c) \<in> (\<lambda>c. (minDistance c, maxDistance c)) ` set cs'"
      using s by blast
    then show "\<exists>c' \<in> set cs'.
             minDistance c' \<le> minDistance c \<and> maxDistance c \<le> maxDistance c'" by auto
  qed
  have b: "\<forall>c \<in> set cs'. \<exists>c' \<in> set cs.
             minDistance c' \<le> minDistance c \<and> maxDistance c \<le> maxDistance c'"
  proof
    fix c assume "c \<in> set cs'"
    then have "(minDistance c, maxDistance c) \<in> (\<lambda>c. (minDistance c, maxDistance c)) ` set cs"
      using s by blast
    then show "\<exists>c' \<in> set cs.
             minDistance c' \<le> minDistance c \<and> maxDistance c \<le> maxDistance c'" by auto
  qed
  show ?thesis
    using canCoverDistanceRange_mono [OF a] canCoverDistanceRange_mono [OF b] by blast
qed

theorem C10_distance_fields_only_witness:
  "map (\<lambda>c. (minDistance c, maxDistance c)) [basicCam1, basicCam2] =
   map (\<lambda>c. (minDistance c, maxDistance c))
     [basicCam1\<lparr>id := ''other'', minLightLevel := 0\<rparr>, basicCam2\<lparr>maxLightLevel := 7\<rparr>] \<and>
   canCoverDistanceRange 1 10 [basicCam1, basicCam2] =
   canCoverDistanceRange 1 10
     [basicCam1\<lparr>id := ''other'', minLightLevel := 0\<rparr>, basicCam2\<lparr>maxLightLevel := 7\<rparr>]"
proof -
  have h: "map (\<lambda>c. (minDistance c, maxDistance c)) [basicCam1, basicCam2] =
           map (\<lambda>c. (minDistance c, maxDistance c))
             [basicCam1\<lparr>id := ''other'', minLightLevel := 0\<rparr>, basicCam2\<lparr>maxLightLevel := 7\<rparr>]"
    by simp
  from C10_distance_fields_only [OF h, of 1 10] h show ?thesis by blast
qed

end
